theory Spec2Isabelle
  imports Complex_Main "HOL-Library.Log_Nat"
begin

section \<open>Data model (types.ts)\<close>

text \<open>
  The JavaScript numbers held in the overlay state (positions, font sizes, pointer
  coordinates) are finite and are modelled as rationals. The additions and
  subtractions on them (pointer deltas, steps of the font size) are modelled as exact:
  they are exact in IEEE doubles for pixel coordinates and font sizes that are
  integers, or binary fractions of a few digits. The export divides and multiplies;
  there every operation rounds to the nearest double (\<open>fl\<close> below), and a division
  by zero gives an infinity or NaN (the type \<open>jsnum\<close> below).

  The interface \<open>MemeText\<close> has the fields \<open>id, content, x, y, fontSize, color\<close>;
  \<open>id\<close>, \<open>x\<close> and \<open>y\<close> carry the prefix \<open>text_\<close> here, because \<open>id\<close> is a
  constant of HOL and \<open>x\<close>, \<open>y\<close> are used as variables.
\<close>

record MemeText =
  text_id :: string
  content :: string
  text_x :: rat
  text_y :: rat
  fontSize :: rat
  color :: string

text \<open>\<open>Partial<MemeText>\<close>: every field is optional.\<close>

record MemeText_partial =
  p_id :: "string option"
  p_content :: "string option"
  p_x :: "rat option"
  p_y :: "rat option"
  p_fontSize :: "rat option"
  p_color :: "string option"

definition no_updates :: MemeText_partial where
  "no_updates = \<lparr>p_id = None, p_content = None, p_x = None, p_y = None,
     p_fontSize = None, p_color = None\<rparr>"

text \<open>The object spread \<open>{ ...t, ...updates }\<close>: a field of \<open>updates\<close> that is present
  overrides the field of \<open>t\<close>.\<close>

definition spread :: "MemeText \<Rightarrow> MemeText_partial \<Rightarrow> MemeText" where
  "spread t u =
     (let t1 = (case p_id u of None \<Rightarrow> t | Some v \<Rightarrow> t\<lparr>text_id := v\<rparr>);
          t2 = (case p_content u of None \<Rightarrow> t1 | Some v \<Rightarrow> t1\<lparr>content := v\<rparr>);
          t3 = (case p_x u of None \<Rightarrow> t2 | Some v \<Rightarrow> t2\<lparr>text_x := v\<rparr>);
          t4 = (case p_y u of None \<Rightarrow> t3 | Some v \<Rightarrow> t3\<lparr>text_y := v\<rparr>);
          t5 = (case p_fontSize u of None \<Rightarrow> t4 | Some v \<Rightarrow> t4\<lparr>fontSize := v\<rparr>)
      in (case p_color u of None \<Rightarrow> t5 | Some v \<Rightarrow> t5\<lparr>color := v\<rparr>))"

datatype AppMode = CAPTION | EDIT

record Template =
  template_id :: string
  name :: string
  url :: string

definition TEMPLATES :: "Template list" where
  "TEMPLATES =
    [\<lparr>template_id = ''1'', name = ''Distracted Boyfriend'', url = ''https://picsum.photos/id/1/800/600''\<rparr>,
     \<lparr>template_id = ''2'', name = ''Drake Hotline'', url = ''https://picsum.photos/id/20/800/800''\<rparr>,
     \<lparr>template_id = ''3'', name = ''Two Buttons'', url = ''https://picsum.photos/id/30/800/600''\<rparr>,
     \<lparr>template_id = ''4'', name = ''Change My Mind'', url = ''https://picsum.photos/id/40/800/600''\<rparr>]"

section \<open>Application state (the \<open>useState\<close> hooks of App and MemeCanvas)\<close>

text \<open>
  \<open>image_src\<close> is the state variable \<open>image\<close> of App (\<open>image\<close> is a constant of HOL).
  \<open>isDragging\<close> and \<open>dragStartRef\<close> are the local state of the MemeCanvas component.
  A value of type \<open>string | null\<close> is a \<open>string option\<close>.
\<close>

record app_state =
  image_src :: string
  texts :: "MemeText list"
  selectedTextId :: "string option"
  captions :: "string list"
  isProcessing :: bool
  mode :: AppMode
  editPrompt :: string
  isDragging :: bool
  dragStartRef :: "(rat \<times> rat) option"

definition initial_state :: app_state where
  "initial_state =
     \<lparr>image_src = ''https://picsum.photos/800/600'', texts = [], selectedTextId = None,
      captions = [], isProcessing = False, mode = CAPTION, editPrompt = [],
      isDragging = False, dragStartRef = None\<rparr>"

subsection \<open>\<open>Date.now().toString()\<close>\<close>

text \<open>\<open>Date.now()\<close> is an integer number of milliseconds, an input of the model;
  \<open>toString\<close> is its decimal rendering.\<close>

definition digit_char :: "nat \<Rightarrow> char" where
  "digit_char d = ''0123456789'' ! d"

fun digits :: "nat \<Rightarrow> string" where
  "digits n = (if n < 10 then [digit_char n] else digits (n div 10) @ [digit_char (n mod 10)])"

definition toString :: "int \<Rightarrow> string" where
  "toString i = (if i < 0 then CHR ''-'' # digits (nat (- i)) else digits (nat i))"

section \<open>Text management (App)\<close>

definition setSelectedTextId :: "string option \<Rightarrow> app_state \<Rightarrow> app_state" where
  "setSelectedTextId v s = s\<lparr>selectedTextId := v\<rparr>"

text \<open>\<open>addText(initialContent)\<close>; \<open>now\<close> is the value of \<open>Date.now()\<close>.\<close>

definition newText :: "int \<Rightarrow> string \<Rightarrow> MemeText" where
  "newText now initialContent =
     \<lparr>text_id = toString now, content = initialContent, text_x = 400, text_y = 300,
      fontSize = 40, color = ''#FFFFFF''\<rparr>"

definition addText :: "int \<Rightarrow> string \<Rightarrow> app_state \<Rightarrow> app_state" where
  "addText now initialContent s =
     setSelectedTextId (Some (text_id (newText now initialContent)))
       (s\<lparr>texts := texts s @ [newText now initialContent]\<rparr>)"

definition updateText :: "string \<Rightarrow> MemeText_partial \<Rightarrow> app_state \<Rightarrow> app_state" where
  "updateText i updates s =
     s\<lparr>texts := map (\<lambda>t. if text_id t = i then spread t updates else t) (texts s)\<rparr>"

definition removeText :: "string \<Rightarrow> app_state \<Rightarrow> app_state" where
  "removeText i s =
     (let s' = s\<lparr>texts := filter (\<lambda>t. text_id t \<noteq> i) (texts s)\<rparr>
      in if selectedTextId s = Some i then setSelectedTextId None s' else s')"

text \<open>Clicking the \<open>idx\<close>-th button of the suggestions panel, which renders one button
  for each element of \<open>captions\<close>.\<close>

definition captionClick :: "int \<Rightarrow> nat \<Rightarrow> app_state \<Rightarrow> app_state" where
  "captionClick now idx s =
     (if idx < length (captions s) then addText now (captions s ! idx) s else s)"

section \<open>Replacing the base image (App)\<close>

text \<open>The \<open>onload\<close> callback of the FileReader in \<open>handleFileUpload\<close>; the argument is
  \<open>ev.target?.result\<close> when it is a string, \<open>None\<close> otherwise.\<close>

definition handleFileUpload :: "string option \<Rightarrow> app_state \<Rightarrow> app_state" where
  "handleFileUpload result s =
     (case result of
        None \<Rightarrow> s
      | Some r \<Rightarrow> s\<lparr>image_src := r, texts := [], captions := []\<rparr>)"

text \<open>The "Random" button: \<open>setImage(`https://picsum.photos/seed/${Date.now()}/800/600`)\<close>.\<close>

definition randomImage :: "int \<Rightarrow> app_state \<Rightarrow> app_state" where
  "randomImage now s =
     s\<lparr>image_src := ''https://picsum.photos/seed/'' @ toString now @ ''/800/600''\<rparr>"

text \<open>A template button: \<open>setImage(t.url)\<close>, one button for each element of \<open>TEMPLATES\<close>.\<close>

definition templateClick :: "nat \<Rightarrow> app_state \<Rightarrow> app_state" where
  "templateClick k s =
     (if k < length TEMPLATES then s\<lparr>image_src := url (TEMPLATES ! k)\<rparr> else s)"

text \<open>
  \<open>handleAiEdit\<close> after \<open>await editImageWithAI(...)\<close> has settled. The service returns a
  data URL, returns \<open>null\<close>, or throws. The second component of the result is the
  message passed to \<open>alert\<close>, if any. A returned string is tested for truthiness, so
  the empty string counts as no image.
\<close>

datatype edit_outcome = Edited string | NoImage | Thrown

definition handleAiEdit :: "edit_outcome \<Rightarrow> app_state \<Rightarrow> app_state \<times> string option" where
  "handleAiEdit outcome s =
     (case outcome of
        Edited newImageBase64 \<Rightarrow>
          (if newImageBase64 \<noteq> []
           then (s\<lparr>image_src := newImageBase64, editPrompt := [], isProcessing := False\<rparr>, None)
           else (s\<lparr>isProcessing := False\<rparr>, Some ''AI could not edit the image this time.''))
      | NoImage \<Rightarrow> (s\<lparr>isProcessing := False\<rparr>, Some ''AI could not edit the image this time.'')
      | Thrown \<Rightarrow> (s\<lparr>isProcessing := False\<rparr>, Some ''Error editing image. Please try again.''))"

section \<open>Drag interaction and controls (MemeCanvas)\<close>

text \<open>A value of type \<open>string | null\<close> is falsy when it is \<open>null\<close> or the empty string.\<close>

definition truthy :: "string option \<Rightarrow> bool" where
  "truthy v = (case v of None \<Rightarrow> False | Some str \<Rightarrow> str \<noteq> [])"

text \<open>\<open>handleMouseDown(e, id)\<close>, with \<open>(cx, cy) = (e.clientX, e.clientY)\<close>.\<close>

definition handleMouseDown :: "string \<Rightarrow> rat \<times> rat \<Rightarrow> app_state \<Rightarrow> app_state" where
  "handleMouseDown i p s =
     (setSelectedTextId (Some i) s)\<lparr>isDragging := True, dragStartRef := Some p\<rparr>"

text \<open>
  \<open>handleMouseMove(e)\<close>. The handler is a closure of the last render: it reads
  \<open>isDragging\<close>, \<open>selectedTextId\<close> and \<open>texts\<close> as they were rendered (the state
  \<open>rendered\<close>), while \<open>dragStartRef.current\<close> is a mutable reference, read and written
  in the current state, and \<open>onUpdateText\<close> updates the current \<open>texts\<close>.
\<close>

definition handleMouseMove :: "app_state \<Rightarrow> rat \<times> rat \<Rightarrow> app_state \<Rightarrow> app_state" where
  "handleMouseMove rendered p s =
     (if \<not> isDragging rendered \<or> \<not> truthy (selectedTextId rendered) then s
      else case dragStartRef s of
        None \<Rightarrow> s
      | Some start \<Rightarrow>
          (let dx = fst p - fst start;
               dy = snd p - snd start;
               sel = the (selectedTextId rendered);
               s' = (case find (\<lambda>t. text_id t = sel) (texts rendered) of
                       Some t \<Rightarrow>
                         updateText sel
                           (no_updates\<lparr>p_x := Some (text_x t + dx), p_y := Some (text_y t + dy)\<rparr>) s
                     | None \<Rightarrow> s)
           in s'\<lparr>dragStartRef := Some p\<rparr>))"

text \<open>\<open>handleMouseUp\<close> serves both \<open>onMouseUp\<close> and \<open>onMouseLeave\<close> of the outer element.\<close>

definition handleMouseUp :: "app_state \<Rightarrow> app_state" where
  "handleMouseUp s = s\<lparr>isDragging := False, dragStartRef := None\<rparr>"

text \<open>The \<open>onClick\<close> of the outer element: \<open>onSelectText(null)\<close>.\<close>

definition containerClick :: "app_state \<Rightarrow> app_state" where
  "containerClick s = setSelectedTextId None s"

text \<open>The controls rendered for the text layer \<open>t\<close> (only when it is selected): "A+" and
  "A-" compute the new font size from the \<open>fontSize\<close> of that layer.\<close>

definition increaseFontSize :: "MemeText \<Rightarrow> app_state \<Rightarrow> app_state" where
  "increaseFontSize t s =
     updateText (text_id t) (no_updates\<lparr>p_fontSize := Some (min 120 (fontSize t + 4))\<rparr>) s"

definition decreaseFontSize :: "MemeText \<Rightarrow> app_state \<Rightarrow> app_state" where
  "decreaseFontSize t s =
     updateText (text_id t) (no_updates\<lparr>p_fontSize := Some (max 12 (fontSize t - 4))\<rparr>) s"

text \<open>The toolbar inputs of App, rendered when \<open>selectedTextId\<close> is truthy.\<close>

definition editContent :: "string \<Rightarrow> app_state \<Rightarrow> app_state" where
  "editContent v s =
     (if truthy (selectedTextId s)
      then updateText (the (selectedTextId s)) (no_updates\<lparr>p_content := Some v\<rparr>) s else s)"

definition editColor :: "string \<Rightarrow> app_state \<Rightarrow> app_state" where
  "editColor v s =
     (if truthy (selectedTextId s)
      then updateText (the (selectedTextId s)) (no_updates\<lparr>p_color := Some v\<rparr>) s else s)"

section \<open>Export (\<open>handleDownload\<close> of App)\<close>

text \<open>
  The arithmetic of the export divides by the width and height of a bounding box, which
  may be zero. A JavaScript number is then a finite value, an infinity or NaN. The sign
  of zero is not modelled: a zero divisor is \<open>+0\<close>, as the sizes of a bounding box are
  non-negative.

  A finite result is rounded to the nearest IEEE double, ties to even: \<open>fl q\<close> is the
  multiple of \<open>2 ^ (e - 52)\<close> nearest to \<open>q\<close>, where \<open>2 ^ e \<le> |q| < 2 ^ (e + 1)\<close> (a
  significand of 53 bits). The range of the exponent is not bounded: overflow to
  infinity and gradual underflow need magnitudes above \<open>2 ^ 1024\<close> or below
  \<open>2 ^ - 1022\<close>, which sizes and positions in pixels do not reach.
\<close>

definition round_half_even :: "rat \<Rightarrow> int" where
  "round_half_even v =
     (let m = \<lfloor>v\<rfloor>; d = v - of_int m
      in if d < 1 / 2 then m else if 1 / 2 < d then m + 1 else if even m then m else m + 1)"

text \<open>The exponent \<open>e\<close> of a nonzero number, from the bit lengths of its numerator and
  denominator.\<close>

definition exponent :: "rat \<Rightarrow> int" where
  "exponent q =
     (let a = fst (quotient_of \<bar>q\<bar>); b = snd (quotient_of \<bar>q\<bar>); e = bitlen a - bitlen b
      in if 2 powi e \<le> \<bar>q\<bar> then e else e - 1)"

definition fl :: "rat \<Rightarrow> rat" where
  "fl q =
     (if q = 0 then 0
      else let ulp = 2 powi (exponent q - 52)
           in sgn q * of_int (round_half_even (\<bar>q\<bar> / ulp)) * ulp)"

datatype jsnum = Fin rat | PosInf | NegInf | NaN

definition signed_inf :: "bool \<Rightarrow> jsnum" where
  "signed_inf negative = (if negative then NegInf else PosInf)"

fun jdiv :: "jsnum \<Rightarrow> jsnum \<Rightarrow> jsnum" where
  "jdiv NaN _ = NaN"
| "jdiv _ NaN = NaN"
| "jdiv (Fin a) (Fin b) =
     (if b = 0 then (if a = 0 then NaN else signed_inf (a < 0)) else Fin (fl (a / b)))"
| "jdiv (Fin a) PosInf = Fin 0"
| "jdiv (Fin a) NegInf = Fin 0"
| "jdiv PosInf (Fin b) = signed_inf (b < 0)"
| "jdiv NegInf (Fin b) = signed_inf (\<not> b < 0)"
| "jdiv PosInf PosInf = NaN"
| "jdiv PosInf NegInf = NaN"
| "jdiv NegInf PosInf = NaN"
| "jdiv NegInf NegInf = NaN"

fun jmul :: "jsnum \<Rightarrow> jsnum \<Rightarrow> jsnum" where
  "jmul NaN _ = NaN"
| "jmul _ NaN = NaN"
| "jmul (Fin a) (Fin b) = Fin (fl (a * b))"
| "jmul (Fin a) PosInf = (if a = 0 then NaN else signed_inf (a < 0))"
| "jmul (Fin a) NegInf = (if a = 0 then NaN else signed_inf (\<not> a < 0))"
| "jmul PosInf (Fin b) = (if b = 0 then NaN else signed_inf (b < 0))"
| "jmul NegInf (Fin b) = (if b = 0 then NaN else signed_inf (\<not> b < 0))"
| "jmul PosInf PosInf = PosInf"
| "jmul PosInf NegInf = NegInf"
| "jmul NegInf PosInf = NegInf"
| "jmul NegInf NegInf = PosInf"

definition is_finite :: "jsnum \<Rightarrow> bool" where
  "is_finite v = (case v of Fin _ \<Rightarrow> True | _ \<Rightarrow> False)"

text \<open>
  What \<open>handleDownload\<close> reads from the document: the element behind \<open>canvasRef\<close> (if
  mounted) with the size of its bounding box and the \<open>img\<close> element inside it (if
  any) with its natural size, and whether \<open>getContext('2d')\<close> gives a context. The
  natural size of an image that has not loaded is \<open>0 x 0\<close>; \<open>drawImage\<close> draws nothing
  for such an image and is taken not to throw.
\<close>

record img_element =
  naturalWidth :: nat
  naturalHeight :: nat

record container_element =
  rect_width :: rat
  rect_height :: rat
  img :: "img_element option"

record document =
  canvasRef_current :: "container_element option"
  context2d :: bool

text \<open>One text drawn on the canvas: \<open>ctx.font\<close>, \<open>ctx.lineWidth\<close>, the stroke and the
  fill at \<open>(drawX, drawY)\<close>.\<close>

record drawn_text =
  drawn_content :: string
  drawX :: jsnum
  drawY :: jsnum
  drawn_fontSize :: jsnum
  lineWidth :: jsnum
  fillStyle :: string

text \<open>The file offered for download: its name, the size of the canvas, and the texts
  drawn over the image in order.\<close>

record artifact =
  download :: string
  canvas_width :: nat
  canvas_height :: nat
  drawn :: "drawn_text list"

text \<open>The result of \<open>handleDownload\<close>: the messages reported to the user (the code
  never calls \<open>alert\<close> here and throws nothing) and the file produced, if any.\<close>

record export_result =
  reported :: "string list"
  produced :: "artifact option"

definition draw_text :: "rat \<times> rat \<Rightarrow> nat \<times> nat \<Rightarrow> MemeText \<Rightarrow> drawn_text" where
  "draw_text containerRect canvas t =
     (let relativeX = jdiv (Fin (text_x t)) (Fin (fst containerRect));
          relativeY = jdiv (Fin (text_y t)) (Fin (snd containerRect));
          drawX = jmul relativeX (Fin (of_nat (fst canvas)));
          drawY = jmul relativeY (Fin (of_nat (snd canvas)));
          fontSize' = jmul (jdiv (Fin (fontSize t)) (Fin (fst containerRect)))
                        (Fin (of_nat (fst canvas)))
      in \<lparr>drawn_content = content t, drawX = drawX, drawY = drawY,
          drawn_fontSize = fontSize', lineWidth = jmul fontSize' (Fin (fl (1 / 10))),
          fillStyle = color t\<rparr>)"

definition handleDownload :: "int \<Rightarrow> document \<Rightarrow> app_state \<Rightarrow> export_result" where
  "handleDownload now doc s =
     (case canvasRef_current doc of
        None \<Rightarrow> \<lparr>reported = [], produced = None\<rparr>
      | Some container \<Rightarrow>
          (if \<not> context2d doc then \<lparr>reported = [], produced = None\<rparr>
           else case img container of
             None \<Rightarrow> \<lparr>reported = [], produced = None\<rparr>
           | Some imgEl \<Rightarrow>
                 \<lparr>reported = [],
                  produced = Some
                    \<lparr>download = ''meme-'' @ toString now @ ''.png'',
                     canvas_width = naturalWidth imgEl,
                     canvas_height = naturalHeight imgEl,
                     drawn = map (draw_text (rect_width container, rect_height container)
                                    (naturalWidth imgEl, naturalHeight imgEl)) (texts s)\<rparr>\<rparr>))"

section \<open>The remaining handlers of App\<close>

text \<open>\<open>!editPrompt.trim()\<close>: the prompt is empty or consists of white space only (the
  white space of ASCII; strings are lists of bytes here).\<close>

definition blank :: "string \<Rightarrow> bool" where
  "blank str =
     list_all (\<lambda>c. List.member [CHR 0x09, CHR 0x0A, CHR 0x0B, CHR 0x0C, CHR 0x0D, CHR '' ''] c) str"

text \<open>\<open>handleAiEdit\<close> up to its first \<open>await\<close>.\<close>

definition handleAiEdit_start :: "app_state \<Rightarrow> app_state" where
  "handleAiEdit_start s =
     (if blank (editPrompt s) \<or> image_src s = [] then s else s\<lparr>isProcessing := True\<rparr>)"

text \<open>\<open>handleMagicCaption\<close> up to its first \<open>await\<close>, and after the request has
  settled (\<open>Some suggestions\<close>, or \<open>None\<close> when something was thrown).\<close>

definition handleMagicCaption_start :: "app_state \<Rightarrow> app_state" where
  "handleMagicCaption_start s =
     (if image_src s = [] then s else s\<lparr>isProcessing := True, mode := CAPTION, captions := []\<rparr>)"

definition handleMagicCaption :: "string list option \<Rightarrow> app_state \<Rightarrow> app_state \<times> string option" where
  "handleMagicCaption outcome s =
     (case outcome of
        Some suggestions \<Rightarrow> (s\<lparr>captions := suggestions, isProcessing := False\<rparr>, None)
      | None \<Rightarrow> (s\<lparr>isProcessing := False\<rparr>, Some ''Failed to generate captions. Try again.''))"

section \<open>The user interface as a transition system\<close>

text \<open>
  One event is one call of a handler. A handler attached to the \<open>k\<close>-th rendered text
  layer exists only when \<open>texts\<close> has a \<open>k\<close>-th element, and the controls of a layer
  exist only while that layer is selected; the component is rendered again between
  two events.
\<close>

datatype event =
    FileLoaded "string option"
  | RandomClick int
  | TemplateClick nat
  | AiEditClick
  | AiEditSettled edit_outcome
  | MagicCaptionClick
  | MagicCaptionSettled "string list option"
  | CloseSuggestions
  | PromptInput string
  | AddTextClick int
  | CaptionClick int nat
  | ContentInput string
  | ColorInput string
  | MouseDown nat "rat \<times> rat"
  | MouseMove "rat \<times> rat"
  | MouseUp
  | MouseLeave
  | ContainerClick
  | TrashClick nat
  | IncreaseClick nat
  | DecreaseClick nat

definition controls_shown :: "nat \<Rightarrow> app_state \<Rightarrow> bool" where
  "controls_shown k s = (k < length (texts s) \<and> selectedTextId s = Some (text_id (texts s ! k)))"

fun step :: "event \<Rightarrow> app_state \<Rightarrow> app_state" where
  "step (FileLoaded r) s = handleFileUpload r s"
| "step (RandomClick now) s = randomImage now s"
| "step (TemplateClick k) s = templateClick k s"
| "step AiEditClick s = handleAiEdit_start s"
| "step (AiEditSettled outcome) s = fst (handleAiEdit outcome s)"
| "step MagicCaptionClick s = handleMagicCaption_start s"
| "step (MagicCaptionSettled outcome) s = fst (handleMagicCaption outcome s)"
| "step CloseSuggestions s = s\<lparr>captions := []\<rparr>"
| "step (PromptInput v) s = s\<lparr>editPrompt := v\<rparr>"
| "step (AddTextClick now) s = addText now ''DOUBLE TAP TO EDIT'' s"
| "step (CaptionClick now idx) s = captionClick now idx s"
| "step (ContentInput v) s = editContent v s"
| "step (ColorInput v) s = editColor v s"
| "step (MouseDown k p) s =
     (if k < length (texts s) then handleMouseDown (text_id (texts s ! k)) p s else s)"
| "step (MouseMove p) s = handleMouseMove s p s"
| "step MouseUp s = handleMouseUp s"
| "step MouseLeave s = handleMouseUp s"
| "step ContainerClick s = containerClick s"
| "step (TrashClick k) s =
     (if controls_shown k s then removeText (text_id (texts s ! k)) s else s)"
| "step (IncreaseClick k) s =
     (if controls_shown k s then increaseFontSize (texts s ! k) s else s)"
| "step (DecreaseClick k) s =
     (if controls_shown k s then decreaseFontSize (texts s ! k) s else s)"

definition run :: "event list \<Rightarrow> app_state \<Rightarrow> app_state" where
  "run es s = foldl (\<lambda>st e. step e st) s es"

text \<open>The clock readings used by the events that add a text layer.\<close>

fun add_time :: "event \<Rightarrow> int list" where
  "add_time (AddTextClick now) = [now]"
| "add_time (CaptionClick now idx) = [now]"
| "add_time _ = []"

section \<open>Drag sessions\<close>





subsection \<open>The changes of the text layers\<close>

text \<open>How one event changes the list of text layers: not at all, by clearing it, by
  appending a new layer, by removing the layers of one id, or by a patch that leaves
  the id alone and sets the font size, if at all, through one of the two controls.\<close>

definition ui_patch :: "MemeText list \<Rightarrow> MemeText_partial \<Rightarrow> bool" where
  "ui_patch ts u =
     (p_id u = None \<and>
      (p_fontSize u = None \<or>
       (\<exists>t\<in>set ts. p_fontSize u = Some (min 120 (fontSize t + 4)) \<or>
                     p_fontSize u = Some (max 12 (fontSize t - 4)))))"

definition patched :: "string \<Rightarrow> MemeText_partial \<Rightarrow> MemeText list \<Rightarrow> MemeText list" where
  "patched i u ts = map (\<lambda>t. if text_id t = i then spread t u else t) ts"

section \<open>Example states\<close>

definition two_texts :: app_state where
  "two_texts = initial_state\<lparr>texts :=
     [\<lparr>text_id = ''1'', content = ''TOP'', text_x = 400, text_y = 300, fontSize = 40, color = ''#FFFFFF''\<rparr>,
      \<lparr>text_id = ''2'', content = ''BOTTOM'', text_x = 100, text_y = 150, fontSize = 40, color = ''#FF0000''\<rparr>],
     selectedTextId := Some ''2''\<rparr>"

text \<open>A container of \<open>400 x 300\<close> showing an image of natural size \<open>800 x 600\<close>; the same
  image in a container of size \<open>0 x 0\<close>; a container of \<open>768 x 432\<close> showing an image of
  natural size \<open>1920 x 1080\<close>; an image element that has not loaded.\<close>

definition shown_doc :: document where
  "shown_doc =
     \<lparr>canvasRef_current =
        Some \<lparr>rect_width = 400, rect_height = 300,
              img = Some \<lparr>naturalWidth = 800, naturalHeight = 600\<rparr>\<rparr>,
      context2d = True\<rparr>"

definition collapsed_doc :: document where
  "collapsed_doc =
     \<lparr>canvasRef_current =
        Some \<lparr>rect_width = 0, rect_height = 0,
              img = Some \<lparr>naturalWidth = 800, naturalHeight = 600\<rparr>\<rparr>,
      context2d = True\<rparr>"

definition wide_doc :: document where
  "wide_doc =
     \<lparr>canvasRef_current =
        Some \<lparr>rect_width = 768, rect_height = 432,
              img = Some \<lparr>naturalWidth = 1920, naturalHeight = 1080\<rparr>\<rparr>,
      context2d = True\<rparr>"

definition unloaded_doc :: document where
  "unloaded_doc =
     \<lparr>canvasRef_current =
        Some \<lparr>rect_width = 400, rect_height = 300,
              img = Some \<lparr>naturalWidth = 0, naturalHeight = 0\<rparr>\<rparr>,
      context2d = True\<rparr>"

definition largest_text :: app_state where
  "largest_text = initial_state\<lparr>texts :=
     [\<lparr>text_id = ''1'', content = ''TOP'', text_x = 400, text_y = 300, fontSize = 120, color = ''#FFFFFF''\<rparr>],
     selectedTextId := Some ''1''\<rparr>"

text \<open>The file exported from \<open>two_texts\<close> shown in \<open>shown_doc\<close> at clock reading 1000.\<close>

definition shown_artifact :: artifact where
  "shown_artifact =
     \<lparr>download = ''meme-1000.png'', canvas_width = 800, canvas_height = 600,
      drawn =
        [\<lparr>drawn_content = ''TOP'', drawX = Fin 800, drawY = Fin 600, drawn_fontSize = Fin 80,
          lineWidth = Fin 8, fillStyle = ''#FFFFFF''\<rparr>,
         \<lparr>drawn_content = ''BOTTOM'', drawX = Fin 200, drawY = Fin 300, drawn_fontSize = Fin 80,
          lineWidth = Fin 8, fillStyle = ''#FF0000''\<rparr>]\<rparr>"



definition three_captions :: app_state where
  "three_captions = two_texts\<lparr>captions := [''first'', ''second'', ''third'']\<rparr>"

section \<open>Basic facts\<close>

declare digits.simps [simp del]

lemma digit_char_inj:
  "a < 10 \<Longrightarrow> b < 10 \<Longrightarrow> digit_char a = digit_char b \<Longrightarrow> a = b"
proof -
  assume a: "a < 10" and b: "b < 10" and eq: "digit_char a = digit_char b"
  have d: "distinct ''0123456789''" by simp
  have "a < length ''0123456789''" "b < length ''0123456789''" using a b by simp_all
  with d eq show "a = b" unfolding digit_char_def
    by (simp only: nth_eq_iff_index_eq)
qed

lemma digit_char_not_minus: "d < 10 \<Longrightarrow> digit_char d \<noteq> CHR ''-''"
proof -
  assume "d < 10"
  then have "d \<in> {0,1,2,3,4,5,6,7,8,9}" by auto
  then show ?thesis unfolding digit_char_def by auto
qed

lemma digits_small: "n < 10 \<Longrightarrow> digits n = [digit_char n]"
  by (subst digits.simps) simp

lemma digits_large: "\<not> n < 10 \<Longrightarrow> digits n = digits (n div 10) @ [digit_char (n mod 10)]"
  by (subst digits.simps) simp

lemma digits_nonempty: "digits n \<noteq> []"
  by (cases "n < 10") (simp_all add: digits_small digits_large)

lemma digits_nonempty': "[] \<noteq> digits n"
  using digits_nonempty [of n] by simp

lemma digits_hd_not_minus: "hd (digits n) \<noteq> CHR ''-''"
proof (induction n rule: digits.induct)
  case (1 n)
  show ?case
  proof (cases "n < 10")
    case True
    then show ?thesis by (simp add: digits_small digit_char_not_minus)
  next
    case False
    with 1 show ?thesis
      by (simp add: digits_large digits_nonempty)
  qed
qed

lemma digits_inj: "digits n = digits m \<Longrightarrow> n = m"
proof (induction n arbitrary: m rule: digits.induct)
  case (1 n)
  show ?case
  proof (cases "n < 10")
    case n: True
    show ?thesis
    proof (cases "m < 10")
      case True
      with n "1.prems" show ?thesis
        by (simp add: digits_small digit_char_inj)
    next
      case False
      with n "1.prems" show ?thesis
        by (simp add: digits_small digits_large digits_nonempty digits_nonempty')
    qed
  next
    case n: False
    show ?thesis
    proof (cases "m < 10")
      case True
      with n "1.prems" show ?thesis
        by (simp add: digits_small digits_large digits_nonempty)
    next
      case False
      from n False "1.prems"
      have eq: "digits (n div 10) = digits (m div 10)"
        and last: "digit_char (n mod 10) = digit_char (m mod 10)"
        by (simp_all add: digits_large)
      from "1.IH" [OF n eq] have "n div 10 = m div 10" .
      moreover from last have "n mod 10 = m mod 10"
        by (rule digit_char_inj [rotated 2]) simp_all
      ultimately show ?thesis
        by (metis div_mult_mod_eq)
    qed
  qed
qed

lemma toString_inj: "toString a = toString b \<Longrightarrow> a = b"
proof -
  assume eq: "toString a = toString b"
  have neg: "digits n \<noteq> CHR ''-'' # str" for n str
    using digits_hd_not_minus [of n] by (cases "digits n") auto
  show "a = b"
  proof (cases "a < 0")
    case a: True
    show ?thesis
    proof (cases "b < 0")
      case True
      with a eq have "nat (- a) = nat (- b)" by (simp add: toString_def digits_inj)
      with a True show ?thesis by simp
    next
      case False
      with a eq neg show ?thesis by (simp add: toString_def) metis
    qed
  next
    case a: False
    show ?thesis
    proof (cases "b < 0")
      case True
      with a eq neg show ?thesis by (simp add: toString_def)
    next
      case False
      with a eq have "nat a = nat b" by (simp add: toString_def digits_inj)
      with a False show ?thesis by simp
    qed
  qed
qed

lemma toString_nonempty: "toString a \<noteq> []"
  by (simp add: toString_def digits_nonempty)

lemma toString_1000: "toString 1000 = ''1000''"
  by (simp add: toString_def digit_char_def digits_small digits_large)

lemma toString_1001: "toString 1001 = ''1001''"
  by (simp add: toString_def digit_char_def digits_small digits_large)

lemma spread_fields:
  "text_id (spread t u) = (case p_id u of None \<Rightarrow> text_id t | Some v \<Rightarrow> v)"
  "content (spread t u) = (case p_content u of None \<Rightarrow> content t | Some v \<Rightarrow> v)"
  "text_x (spread t u) = (case p_x u of None \<Rightarrow> text_x t | Some v \<Rightarrow> v)"
  "text_y (spread t u) = (case p_y u of None \<Rightarrow> text_y t | Some v \<Rightarrow> v)"
  "fontSize (spread t u) = (case p_fontSize u of None \<Rightarrow> fontSize t | Some v \<Rightarrow> v)"
  "color (spread t u) = (case p_color u of None \<Rightarrow> color t | Some v \<Rightarrow> v)"
  by (simp_all add: spread_def Let_def split: option.splits)

lemma texts_updateText:
  "texts (updateText i u s) = map (\<lambda>t. if text_id t = i then spread t u else t) (texts s)"
  by (simp add: updateText_def)

lemma map_if_absent:
  "\<forall>t\<in>set xs. text_id t \<noteq> i \<Longrightarrow> map (\<lambda>t. if text_id t = i then f t else t) xs = xs"
  by (induction xs) auto

subsection \<open>Events and the text layers\<close>

lemma run_Nil: "run [] s = s"
  by (simp add: run_def)

lemma run_snoc: "run (es @ [e]) s = step e (run es s)"
  by (simp add: run_def)

lemma run_Cons: "run (e # es) s = run es (step e s)"
  by (simp add: run_def)

lemma texts_addText: "texts (addText now c s) = texts s @ [newText now c]"
  by (simp add: addText_def setSelectedTextId_def)

lemma texts_removeText: "texts (removeText i s) = filter (\<lambda>t. text_id t \<noteq> i) (texts s)"
  by (simp add: removeText_def setSelectedTextId_def Let_def)

lemma no_updates_simps:
  "p_id no_updates = None" "p_content no_updates = None" "p_x no_updates = None"
  "p_y no_updates = None" "p_fontSize no_updates = None" "p_color no_updates = None"
  by (simp_all add: no_updates_def)

lemma texts_handleMouseMove:
  "texts (handleMouseMove r p s) = texts s \<or>
   (\<exists>i vx vy. texts (handleMouseMove r p s) =
      patched i (no_updates\<lparr>p_x := Some vx, p_y := Some vy\<rparr>) (texts s))"
proof (cases "\<not> isDragging r \<or> \<not> truthy (selectedTextId r)")
  case True
  then show ?thesis by (auto simp: handleMouseMove_def)
next
  case active: False
  show ?thesis
  proof (cases "dragStartRef s")
    case None
    with active show ?thesis by (simp add: handleMouseMove_def)
  next
    case (Some start)
    show ?thesis
    proof (cases "find (\<lambda>t. text_id t = the (selectedTextId r)) (texts r)")
      case None
      with active Some show ?thesis by (simp add: handleMouseMove_def Let_def)
    next
      case found: (Some t)
      with active Some
      have "texts (handleMouseMove r p s) =
              patched (the (selectedTextId r))
                (no_updates\<lparr>p_x := Some (text_x t + (fst p - fst start)),
                            p_y := Some (text_y t + (snd p - snd start))\<rparr>) (texts s)"
        by (simp add: handleMouseMove_def Let_def texts_updateText patched_def)
      then show ?thesis by blast
    qed
  qed
qed

lemma step_texts:
  "texts (step e s) = texts s
   \<or> texts (step e s) = []
   \<or> (\<exists>now c. add_time e = [now] \<and> texts (step e s) = texts s @ [newText now c])
   \<or> (\<exists>i. texts (step e s) = filter (\<lambda>t. text_id t \<noteq> i) (texts s))
   \<or> (\<exists>i u. ui_patch (texts s) u \<and> texts (step e s) = patched i u (texts s))"
proof (cases e)
  case (FileLoaded r)
  then show ?thesis by (simp add: handleFileUpload_def split: option.splits)
next
  case (RandomClick now)
  then show ?thesis by (simp add: randomImage_def)
next
  case (TemplateClick k)
  then show ?thesis by (simp add: templateClick_def)
next
  case AiEditClick
  then show ?thesis by (simp add: handleAiEdit_start_def)
next
  case (AiEditSettled outcome)
  then show ?thesis by (simp add: handleAiEdit_def split: edit_outcome.splits)
next
  case MagicCaptionClick
  then show ?thesis by (simp add: handleMagicCaption_start_def)
next
  case (MagicCaptionSettled outcome)
  then show ?thesis by (simp add: handleMagicCaption_def split: option.splits)
next
  case CloseSuggestions
  then show ?thesis by simp
next
  case (PromptInput v)
  then show ?thesis by simp
next
  case (AddTextClick now)
  then show ?thesis by (auto simp: texts_addText)
next
  case (CaptionClick now idx)
  then show ?thesis by (auto simp: captionClick_def texts_addText)
next
  case (ContentInput v)
  have "ui_patch (texts s) (no_updates\<lparr>p_content := Some v\<rparr>)"
    by (simp add: ui_patch_def no_updates_simps)
  with ContentInput show ?thesis
    unfolding patched_def by (auto simp: editContent_def texts_updateText)
next
  case (ColorInput v)
  have "ui_patch (texts s) (no_updates\<lparr>p_color := Some v\<rparr>)"
    by (simp add: ui_patch_def no_updates_simps)
  with ColorInput show ?thesis
    unfolding patched_def by (auto simp: editColor_def texts_updateText)
next
  case (MouseDown k p)
  then show ?thesis by (simp add: handleMouseDown_def setSelectedTextId_def)
next
  case (MouseMove p)
  have "ui_patch (texts s) (no_updates\<lparr>p_x := Some vx, p_y := Some vy\<rparr>)" for vx vy
    by (simp add: ui_patch_def no_updates_simps)
  with MouseMove texts_handleMouseMove [of s p s] show ?thesis
    by (simp only: step.simps) blast
next
  case MouseUp
  then show ?thesis by (simp add: handleMouseUp_def)
next
  case MouseLeave
  then show ?thesis by (simp add: handleMouseUp_def)
next
  case ContainerClick
  then show ?thesis by (simp add: containerClick_def setSelectedTextId_def)
next
  case (TrashClick k)
  then show ?thesis by (auto simp: texts_removeText)
next
  case (IncreaseClick k)
  show ?thesis
  proof (cases "controls_shown k s")
    case True
    then have "ui_patch (texts s) (no_updates\<lparr>p_fontSize := Some (min 120 (fontSize (texts s ! k) + 4))\<rparr>)"
      unfolding ui_patch_def controls_shown_def
      by (auto simp: no_updates_simps intro!: bexI [of _ "texts s ! k"])
    with True IncreaseClick show ?thesis
      unfolding patched_def by (auto simp: increaseFontSize_def texts_updateText)
  next
    case False
    with IncreaseClick show ?thesis by simp
  qed
next
  case (DecreaseClick k)
  show ?thesis
  proof (cases "controls_shown k s")
    case True
    then have "ui_patch (texts s) (no_updates\<lparr>p_fontSize := Some (max 12 (fontSize (texts s ! k) - 4))\<rparr>)"
      unfolding ui_patch_def controls_shown_def
      by (auto simp: no_updates_simps intro!: bexI [of _ "texts s ! k"])
    with True DecreaseClick show ?thesis
      unfolding patched_def by (auto simp: decreaseFontSize_def texts_updateText)
  next
    case False
    with DecreaseClick show ?thesis by simp
  qed
qed

lemma ids_patched: "p_id u = None \<Longrightarrow> map text_id (patched i u ts) = map text_id ts"
  by (induction ts) (simp_all add: patched_def spread_fields)

lemma fontSize_patched:
  assumes inv: "\<forall>t\<in>set ts. 12 \<le> fontSize t \<and> fontSize t \<le> 120"
    and u: "ui_patch ts u"
  shows "\<forall>t\<in>set (patched i u ts). 12 \<le> fontSize t \<and> fontSize t \<le> 120"
proof
  fix t' assume "t' \<in> set (patched i u ts)"
  then obtain t where t: "t \<in> set ts" and t': "t' = t \<or> t' = spread t u"
    by (auto simp: patched_def split: if_splits)
  from u have "p_fontSize u = None \<or>
      (\<exists>t0\<in>set ts. p_fontSize u = Some (min 120 (fontSize t0 + 4)) \<or>
                     p_fontSize u = Some (max 12 (fontSize t0 - 4)))"
    by (simp add: ui_patch_def)
  then have "12 \<le> fontSize (spread t u) \<and> fontSize (spread t u) \<le> 120"
  proof
    assume "p_fontSize u = None"
    with inv t show ?thesis by (simp add: spread_fields)
  next
    assume "\<exists>t0\<in>set ts. p_fontSize u = Some (min 120 (fontSize t0 + 4)) \<or>
                     p_fontSize u = Some (max 12 (fontSize t0 - 4))"
    then obtain t0 where t0: "t0 \<in> set ts"
      and v: "p_fontSize u = Some (min 120 (fontSize t0 + 4)) \<or>
              p_fontSize u = Some (max 12 (fontSize t0 - 4))"
      by blast
    from inv t0 have "12 \<le> fontSize t0" "fontSize t0 \<le> 120" by simp_all
    with v show ?thesis by (auto simp: spread_fields)
  qed
  with t' inv t show "12 \<le> fontSize t' \<and> fontSize t' \<le> 120" by auto
qed

lemma step_texts_cases:
  obtains (same) "texts (step e s) = texts s"
    | (cleared) "texts (step e s) = []"
    | (added) now c where "add_time e = [now]" "texts (step e s) = texts s @ [newText now c]"
    | (removed) i where "texts (step e s) = filter (\<lambda>t. text_id t \<noteq> i) (texts s)"
    | (updated) i u where "ui_patch (texts s) u" "texts (step e s) = patched i u (texts s)"
  using step_texts [of e s] by blast

lemma step_fontSize:
  assumes inv: "\<forall>t\<in>set (texts s). 12 \<le> fontSize t \<and> fontSize t \<le> 120"
  shows "\<forall>t\<in>set (texts (step e s)). 12 \<le> fontSize t \<and> fontSize t \<le> 120"
proof (cases e s rule: step_texts_cases)
  case same
  with inv show ?thesis by (simp only:)
next
  case cleared
  then show ?thesis by simp
next
  case (added now c)
  have "fontSize (newText now c) = 40" by (simp add: newText_def)
  with added(2) inv show ?thesis by simp
next
  case (removed i)
  with inv show ?thesis by simp
next
  case (updated i u)
  from fontSize_patched [OF inv updated(1)] updated(2) show ?thesis by (simp only:)
qed


lemma run_fontSize:
  "\<forall>t\<in>set (texts (run es initial_state)). 12 \<le> fontSize t \<and> fontSize t \<le> 120"
proof (induction es rule: rev_induct)
  case Nil
  show ?case by (simp add: run_Nil initial_state_def)
next
  case (snoc e es)
  show ?case unfolding run_snoc by (rule step_fontSize) (rule snoc.IH)
qed

lemma step_ids:
  assumes d: "distinct (map text_id (texts s))"
    and sub: "text_id ` set (texts s) \<subseteq> toString ` T"
    and fresh: "\<forall>now\<in>set (add_time e). now \<notin> T"
  shows "distinct (map text_id (texts (step e s))) \<and>
         text_id ` set (texts (step e s)) \<subseteq> toString ` (T \<union> set (add_time e))"
proof (cases e s rule: step_texts_cases)
  case same
  with d sub show ?thesis by auto
next
  case cleared
  then show ?thesis by simp
next
  case (added now c)
  with fresh have "now \<notin> T" by simp
  with sub have new: "toString now \<notin> text_id ` set (texts s)"
    by (auto dest: toString_inj)
  have id: "text_id (newText now c) = toString now" by (simp add: newText_def)
  from added new d sub id show ?thesis by auto
next
  case (removed i)
  with d sub show ?thesis by (auto simp: distinct_map_filter)
next
  case (updated i u)
  then have "map text_id (texts (step e s)) = map text_id (texts s)"
    by (simp add: ids_patched ui_patch_def)
  then have "distinct (map text_id (texts (step e s))) = distinct (map text_id (texts s))"
    and "set (map text_id (texts (step e s))) = set (map text_id (texts s))"
    by simp_all
  with d sub show ?thesis by auto
qed

lemma run_ids:
  "distinct (concat (map add_time es)) \<Longrightarrow>
     distinct (map text_id (texts (run es initial_state))) \<and>
     text_id ` set (texts (run es initial_state)) \<subseteq> toString ` set (concat (map add_time es))"
proof (induction es rule: rev_induct)
  case Nil
  show ?case by (simp add: run_Nil initial_state_def)
next
  case (snoc e es)
  from snoc.prems have d: "distinct (concat (map add_time es))"
    and fresh: "\<forall>now\<in>set (add_time e). now \<notin> set (concat (map add_time es))"
    by auto
  from snoc.IH [OF d] step_ids [of "run es initial_state" "set (concat (map add_time es))" e] fresh
  show ?case by (simp add: run_snoc)
qed

lemma step_IncreaseClick:
  assumes "controls_shown k s"
  shows "fontSize (texts (step (IncreaseClick k) s) ! k) = min 120 (fontSize (texts s ! k) + 4)"
proof -
  from assms have k: "k < length (texts s)" by (simp add: controls_shown_def)
  with assms show ?thesis
    by (simp add: increaseFontSize_def texts_updateText spread_fields no_updates_simps)
qed

lemma step_DecreaseClick:
  assumes "controls_shown k s"
  shows "fontSize (texts (step (DecreaseClick k) s) ! k) = max 12 (fontSize (texts s ! k) - 4)"
proof -
  from assms have k: "k < length (texts s)" by (simp add: controls_shown_def)
  with assms show ?thesis
    by (simp add: decreaseFontSize_def texts_updateText spread_fields no_updates_simps)
qed

subsection \<open>Drag sessions\<close>







subsection \<open>Rounding\<close>

lemma round_half_even_error: "\<bar>of_int (round_half_even v) - v\<bar> \<le> 1 / 2"
proof -
  define d where "d = v - of_int \<lfloor>v\<rfloor>"
  have d: "0 \<le> d" "d < 1" unfolding d_def by linarith+
  have v: "v = of_int \<lfloor>v\<rfloor> + d" by (simp add: d_def)
  have "round_half_even v = \<lfloor>v\<rfloor> \<and> d \<le> 1 / 2 \<or> round_half_even v = \<lfloor>v\<rfloor> + 1 \<and> 1 / 2 \<le> d"
    unfolding round_half_even_def Let_def d_def [symmetric] by auto
  then show ?thesis
  proof
    assume a: "round_half_even v = \<lfloor>v\<rfloor> \<and> d \<le> 1 / 2"
    then have "of_int (round_half_even v) - v = - d" using v by simp
    with a d show ?thesis by simp
  next
    assume a: "round_half_even v = \<lfloor>v\<rfloor> + 1 \<and> 1 / 2 \<le> d"
    then have "of_int (round_half_even v) - v = 1 - d" using v by simp
    with a d show ?thesis by simp
  qed
qed

lemma exponent_bounds:
  assumes "q \<noteq> 0"
  shows "2 powi exponent q \<le> \<bar>q\<bar>" and "\<bar>q\<bar> < 2 powi (exponent q + 1)"
proof -
  obtain a b where ab: "quotient_of \<bar>q\<bar> = (a, b)" by (cases "quotient_of \<bar>q\<bar>")
  then have b: "0 < b" and q: "\<bar>q\<bar> = of_int a / of_int b"
    by (auto dest: quotient_of_denom_pos quotient_of_div)
  from assms have "0 < \<bar>q\<bar>" by simp
  with q b have a: "0 < a" by (simp add: zero_less_divide_iff)
  let ?e = "bitlen a - bitlen b"
  from bitlen_bounds [OF a] have a1: "2 ^ nat (bitlen a - 1) \<le> a" and a2: "a < 2 ^ nat (bitlen a)"
    by simp_all
  from bitlen_bounds [OF b] have b1: "2 ^ nat (bitlen b - 1) \<le> b" and b2: "b < 2 ^ nat (bitlen b)"
    by simp_all
  from a have la: "1 \<le> bitlen a" by (simp add: bitlen_alt_def)
  from b have lb: "1 \<le> bitlen b" by (simp add: bitlen_alt_def)
  have pa1: "(2::rat) powi (bitlen a - 1) \<le> of_int a"
  proof -
    have "(of_int (2 ^ nat (bitlen a - 1)) :: rat) \<le> of_int a" using a1 by (simp only: of_int_le_iff)
    then show ?thesis using la by (simp add: power_int_def)
  qed
  have pa2: "(of_int a :: rat) < 2 powi (bitlen a)"
  proof -
    have "(of_int a :: rat) < of_int (2 ^ nat (bitlen a))" using a2 by (simp only: of_int_less_iff)
    then show ?thesis using la by (simp add: power_int_def)
  qed
  have pb1: "(2::rat) powi (bitlen b - 1) \<le> of_int b"
  proof -
    have "(of_int (2 ^ nat (bitlen b - 1)) :: rat) \<le> of_int b" using b1 by (simp only: of_int_le_iff)
    then show ?thesis using lb by (simp add: power_int_def)
  qed
  have pb2: "(of_int b :: rat) < 2 powi (bitlen b)"
  proof -
    have "(of_int b :: rat) < of_int (2 ^ nat (bitlen b))" using b2 by (simp only: of_int_less_iff)
    then show ?thesis using lb by (simp add: power_int_def)
  qed
  have pos: "(0::rat) < 2 powi n" for n by simp
  have bpos: "(0::rat) < of_int b" using b by simp
  have apos: "(0::rat) < of_int a" using a by simp
  have lower: "(2::rat) powi (?e - 1) \<le> \<bar>q\<bar>"
  proof -
    have e1: "?e - 1 = bitlen a - 1 - bitlen b" by simp
    have "(2::rat) powi (?e - 1) = 2 powi (bitlen a - 1) / 2 powi (bitlen b)"
      unfolding e1 by (rule power_int_diff) simp
    also have "\<dots> \<le> of_int a / 2 powi (bitlen b)"
      using pa1 pos [of "bitlen b"] by (simp add: divide_right_mono)
    also have "\<dots> \<le> of_int a / of_int b"
      using pb2 apos bpos by (simp add: frac_le)
    finally show ?thesis using q by simp
  qed
  have upper: "\<bar>q\<bar> < (2::rat) powi (?e + 1)"
  proof -
    have "\<bar>q\<bar> = of_int a / of_int b" by (rule q)
    also have "\<dots> < 2 powi (bitlen a) / of_int b"
      using pa2 bpos by (simp add: divide_strict_right_mono)
    also have "\<dots> \<le> 2 powi (bitlen a) / 2 powi (bitlen b - 1)"
      using pb1 pos [of "bitlen a"] pos [of "bitlen b - 1"] by (simp add: frac_le)
    also have "\<dots> = 2 powi (?e + 1)"
    proof -
      have e2: "?e + 1 = bitlen a - (bitlen b - 1)" by simp
      show ?thesis unfolding e2 by (rule power_int_diff [symmetric]) simp
    qed
    finally show ?thesis .
  qed
  have ex: "exponent q = (if 2 powi ?e \<le> \<bar>q\<bar> then ?e else ?e - 1)"
    by (simp add: exponent_def ab Let_def)
  show "2 powi exponent q \<le> \<bar>q\<bar>" using lower by (simp add: ex)
  show "\<bar>q\<bar> < 2 powi (exponent q + 1)" using upper by (auto simp: ex)
qed

lemma fl_error: "\<bar>fl q - q\<bar> \<le> \<bar>q\<bar> / 2 ^ 53"
proof (cases "q = 0")
  case True
  then show ?thesis by (simp add: fl_def)
next
  case False
  let ?u = "(2::rat) powi (exponent q - 52)"
  let ?n = "round_half_even (\<bar>q\<bar> / ?u)"
  have u: "0 < ?u" by simp
  have fl: "fl q = sgn q * of_int ?n * ?u" using False by (simp add: fl_def Let_def)
  have "q = sgn q * \<bar>q\<bar>" by (simp add: sgn_mult_abs)
  then have "fl q - q = sgn q * of_int ?n * ?u - sgn q * \<bar>q\<bar>" by (simp add: fl)
  then have "fl q - q = sgn q * (of_int ?n * ?u - \<bar>q\<bar>)" by (simp add: algebra_simps)
  then have "\<bar>fl q - q\<bar> = \<bar>sgn q * (of_int ?n * ?u - \<bar>q\<bar>)\<bar>" by simp
  also have "\<dots> = \<bar>of_int ?n * ?u - \<bar>q\<bar>\<bar>"
    using False by (simp add: abs_mult abs_sgn_eq)
  also have "\<dots> = \<bar>of_int ?n - \<bar>q\<bar> / ?u\<bar> * ?u"
  proof -
    have "of_int ?n * ?u - \<bar>q\<bar> = (of_int ?n - \<bar>q\<bar> / ?u) * ?u"
      using u by (simp add: field_simps)
    then show ?thesis using u by (simp add: abs_mult)
  qed
  also have "\<dots> \<le> 1 / 2 * ?u"
    using round_half_even_error [of "\<bar>q\<bar> / ?u"] u by (simp add: mult_right_mono)
  also have "\<dots> = 2 powi exponent q / 2 ^ 53"
  proof -
    have e3: "exponent q - 52 = exponent q - 53 + 1" by simp
    have "?u = 2 powi (exponent q - 53) * 2"
      unfolding e3 by (rule power_int_add_1) simp
    moreover have "(2::rat) powi (exponent q - 53) = 2 powi exponent q / 2 powi 53"
      by (rule power_int_diff) simp
    ultimately show ?thesis by simp
  qed
  also have "\<dots> \<le> \<bar>q\<bar> / 2 ^ 53"
    using exponent_bounds(1) [OF False] by (simp add: divide_right_mono)
  finally show ?thesis .
qed

lemma fl_scaled_error:
  "\<bar>fl (fl a * n) - a * n\<bar> \<le> (2 / 2 ^ 53 + 1 / 2 ^ 106) * \<bar>a * n\<bar>"
proof -
  let ?u = "(1::rat) / 2 ^ 53"
  have e1: "\<bar>fl a - a\<bar> \<le> ?u * \<bar>a\<bar>" using fl_error [of a] by simp
  have e2: "\<bar>fl (fl a * n) - fl a * n\<bar> \<le> ?u * \<bar>fl a * n\<bar>"
    using fl_error [of "fl a * n"] by simp
  have d: "\<bar>fl a * n - a * n\<bar> \<le> ?u * \<bar>a * n\<bar>"
  proof -
    have "\<bar>fl a * n - a * n\<bar> = \<bar>fl a - a\<bar> * \<bar>n\<bar>"
      by (simp add: abs_mult flip: left_diff_distrib)
    also have "\<dots> \<le> ?u * \<bar>a\<bar> * \<bar>n\<bar>" using e1 by (rule mult_right_mono) simp
    finally show ?thesis by (simp add: abs_mult)
  qed
  have b: "\<bar>fl a * n\<bar> \<le> \<bar>a * n\<bar> + ?u * \<bar>a * n\<bar>" using d by linarith
  have "\<bar>fl (fl a * n) - a * n\<bar> \<le> \<bar>fl (fl a * n) - fl a * n\<bar> + \<bar>fl a * n - a * n\<bar>"
    by linarith
  also have "\<dots> \<le> ?u * \<bar>fl a * n\<bar> + ?u * \<bar>a * n\<bar>" using e2 d by linarith
  also have "\<dots> \<le> ?u * (\<bar>a * n\<bar> + ?u * \<bar>a * n\<bar>) + ?u * \<bar>a * n\<bar>"
    using b by (simp add: mult_left_mono)
  also have "\<dots> = (2 / 2 ^ 53 + 1 / 2 ^ 106) * \<bar>a * n\<bar>"
    by (simp add: algebra_simps)
  finally show ?thesis .
qed

subsection \<open>Export\<close>

lemma draw_text_nonzero:
  assumes "w \<noteq> 0" "h \<noteq> 0"
  shows "draw_text (w, h) (nw, nh) t =
     \<lparr>drawn_content = content t,
      drawX = Fin (fl (fl (text_x t / w) * of_nat nw)),
      drawY = Fin (fl (fl (text_y t / h) * of_nat nh)),
      drawn_fontSize = Fin (fl (fl (fontSize t / w) * of_nat nw)),
      lineWidth = Fin (fl (fl (fl (fontSize t / w) * of_nat nw) * fl (1 / 10))),
      fillStyle = color t\<rparr>"
  using assms by (simp add: draw_text_def Let_def)

lemma handleDownload_produced:
  assumes "canvasRef_current doc = Some c" "context2d doc" "img c = Some im"
  shows "handleDownload now doc s =
     \<lparr>reported = [],
      produced = Some
        \<lparr>download = ''meme-'' @ toString now @ ''.png'',
         canvas_width = naturalWidth im, canvas_height = naturalHeight im,
         drawn = map (draw_text (rect_width c, rect_height c) (naturalWidth im, naturalHeight im))
                   (texts s)\<rparr>\<rparr>"
  using assms by (simp add: handleDownload_def)

lemma shown_doc_parts:
  "canvasRef_current shown_doc =
     Some \<lparr>rect_width = 400, rect_height = 300,
           img = Some \<lparr>naturalWidth = 800, naturalHeight = 600\<rparr>\<rparr>"
  "context2d shown_doc"
  by (simp_all add: shown_doc_def)

text \<open>The roundings of the examples.\<close>

lemma fl_values:
  "fl 1 = 1" "fl (1 / 4) = 1 / 4" "fl (1 / 2) = 1 / 2"
  "fl 200 = 200" "fl 300 = 300" "fl 600 = 600" "fl 800 = 800"
  "fl (1 / 10) = 3602879701896397 / 36028797018963968"
  "fl (90071992547409925 / 1125899906842624) = 80"
  "fl (18014398509481985 / 2251799813685248) = 8"
  by code_simp+

lemma fl_wide:
  "fl (fl (25 / 48) * 1920) = 8796093022208001 / 8796093022208"
  "fl (fl (25 / 192) * 1920) = 8796093022208001 / 35184372088832"
  by code_simp+

lemma shown_export: "produced (handleDownload 1000 shown_doc two_texts) = Some shown_artifact"
  by (simp add: handleDownload_def shown_doc_def two_texts_def draw_text_def Let_def
      shown_artifact_def toString_1000 fl_values)

section \<open>The store operations\<close>

text \<open>
  C10. \<open>updateText\<close> keeps the number and the order of the text layers: the layer at
  every position is unchanged when its id differs from the given id, and is the
  spread of the old layer and the patch when its id is the given one; the spread
  keeps every field that the patch does not give; when no layer has the given id the
  state is unchanged; nothing but \<open>texts\<close> is written.
\<close>

theorem updateText_frame:
  "length (texts (updateText i u s)) = length (texts s)
   \<and> (\<forall>k<length (texts s). text_id (texts s ! k) \<noteq> i \<longrightarrow>
         texts (updateText i u s) ! k = texts s ! k)
   \<and> (\<forall>k<length (texts s). text_id (texts s ! k) = i \<longrightarrow>
         texts (updateText i u s) ! k = spread (texts s ! k) u)
   \<and> (\<forall>t. (p_id u = None \<longrightarrow> text_id (spread t u) = text_id t)
          \<and> (p_content u = None \<longrightarrow> content (spread t u) = content t)
          \<and> (p_x u = None \<longrightarrow> text_x (spread t u) = text_x t)
          \<and> (p_y u = None \<longrightarrow> text_y (spread t u) = text_y t)
          \<and> (p_fontSize u = None \<longrightarrow> fontSize (spread t u) = fontSize t)
          \<and> (p_color u = None \<longrightarrow> color (spread t u) = color t))
   \<and> ((\<forall>t\<in>set (texts s). text_id t \<noteq> i) \<longrightarrow> updateText i u s = s)
   \<and> updateText i u s = s\<lparr>texts := texts (updateText i u s)\<rparr>"
proof -
  have absent: "(\<forall>t\<in>set (texts s). text_id t \<noteq> i) \<longrightarrow> updateText i u s = s"
    by (simp add: updateText_def map_if_absent)
  have rest: "updateText i u s = s\<lparr>texts := texts (updateText i u s)\<rparr>"
    by (simp add: updateText_def)
  show ?thesis
    using absent rest by (simp add: texts_updateText spread_fields)
qed

theorem updateText_frame_witness:
  "texts (updateText ''2'' (no_updates\<lparr>p_fontSize := Some 48\<rparr>) two_texts) =
     [\<lparr>text_id = ''1'', content = ''TOP'', text_x = 400, text_y = 300, fontSize = 40, color = ''#FFFFFF''\<rparr>,
      \<lparr>text_id = ''2'', content = ''BOTTOM'', text_x = 100, text_y = 150, fontSize = 48, color = ''#FF0000''\<rparr>]
   \<and> updateText ''3'' (no_updates\<lparr>p_fontSize := Some 48\<rparr>) two_texts = two_texts"
proof -
  have len: "length (texts two_texts) = 2"
    by (simp add: two_texts_def)
  have absent: "\<forall>t\<in>set (texts two_texts). text_id t \<noteq> ''3''"
    by (simp add: two_texts_def)
  note f2 = updateText_frame [of "''2''" "no_updates\<lparr>p_fontSize := Some 48\<rparr>" two_texts]
  note f3 = updateText_frame [of "''3''" "no_updates\<lparr>p_fontSize := Some 48\<rparr>" two_texts]
  from f3 absent have "updateText ''3'' (no_updates\<lparr>p_fontSize := Some 48\<rparr>) two_texts = two_texts"
    by blast
  moreover from f2 have "texts (updateText ''2'' (no_updates\<lparr>p_fontSize := Some 48\<rparr>) two_texts) =
     [\<lparr>text_id = ''1'', content = ''TOP'', text_x = 400, text_y = 300, fontSize = 40, color = ''#FFFFFF''\<rparr>,
      \<lparr>text_id = ''2'', content = ''BOTTOM'', text_x = 100, text_y = 150, fontSize = 48, color = ''#FF0000''\<rparr>]"
    by (simp add: two_texts_def updateText_def spread_def no_updates_def)
  ultimately show ?thesis by simp
qed

text \<open>
  C9. Clicking a suggestion appends exactly one text layer at the end of \<open>texts\<close>,
  whose content is the clicked suggestion, and the selection becomes the id of that
  layer.
\<close>

theorem captionClick_adds_selected:
  "idx < length (captions s) \<Longrightarrow>
     texts (captionClick now idx s) = texts s @ [newText now (captions s ! idx)]
     \<and> length (texts (captionClick now idx s)) = Suc (length (texts s))
     \<and> content (newText now (captions s ! idx)) = captions s ! idx
     \<and> selectedTextId (captionClick now idx s) = Some (text_id (newText now (captions s ! idx)))"
  by (simp add: captionClick_def addText_def setSelectedTextId_def newText_def)

theorem captionClick_adds_selected_witness:
  "(1::nat) < length (captions three_captions)
   \<and> texts (captionClick 1000 1 three_captions) =
       texts two_texts @
       [\<lparr>text_id = ''1000'', content = ''second'', text_x = 400, text_y = 300, fontSize = 40,
         color = ''#FFFFFF''\<rparr>]
   \<and> selectedTextId (captionClick 1000 1 three_captions) = Some ''1000''"
proof -
  have h: "(1::nat) < length (captions three_captions)"
    by (simp add: three_captions_def)
  show ?thesis
    using h captionClick_adds_selected [OF h, of 1000]
    by (simp add: three_captions_def newText_def toString_1000)
qed

text \<open>
  C8 (as stated). Two add operations that read the same clock value give the same id:
  the ids of a reachable collection need not be pairwise distinct.
\<close>

theorem ids_repeat_counterexample:
  "map text_id (texts (run [AddTextClick 1000, AddTextClick 1000] initial_state)) =
     [''1000'', ''1000'']
   \<and> \<not> distinct (map text_id (texts (run [AddTextClick 1000, AddTextClick 1000] initial_state)))"
  by (simp add: run_def addText_def setSelectedTextId_def newText_def initial_state_def
      toString_1000)

text \<open>
  C8 (amended). Each add operation assigns the decimal rendering of the clock reading
  as id. In every state reached from the initial state by events whose add operations
  read pairwise distinct clock values, the ids of the text layers are pairwise
  distinct.
\<close>

theorem ids_distinct_if_clock_distinct:
  "distinct (concat (map add_time es)) \<Longrightarrow>
     distinct (map text_id (texts (run es initial_state)))"
  using run_ids [of es] by blast

theorem ids_distinct_if_clock_distinct_witness:
  "distinct (concat (map add_time [AddTextClick 1000, MouseUp, AddTextClick 1001]))
   \<and> distinct (map text_id (texts (run [AddTextClick 1000, MouseUp, AddTextClick 1001] initial_state)))
   \<and> map text_id (texts (run [AddTextClick 1000, MouseUp, AddTextClick 1001] initial_state)) =
       [''1000'', ''1001'']"
proof -
  have h: "distinct (concat (map add_time [AddTextClick 1000, MouseUp, AddTextClick 1001]))"
    by simp
  have "map text_id (texts (run [AddTextClick 1000, MouseUp, AddTextClick 1001] initial_state)) =
       [''1000'', ''1001'']"
    by (simp add: run_def addText_def setSelectedTextId_def handleMouseUp_def newText_def
        initial_state_def toString_1000 toString_1001)
  with h ids_distinct_if_clock_distinct [OF h] show ?thesis by simp
qed

section \<open>Font size\<close>

text \<open>
  C3. In every state reached from the initial state by events, the font size of every
  text layer lies within \<open>[12, 120]\<close>, every event keeps it so, and it still holds after
  any further event. The font size is changed only by the two controls of the selected
  layer, in steps of 4 that are clamped, not rejected: "A+" sets it to
  \<open>min 120 (fontSize + 4)\<close> and "A-" to \<open>max 12 (fontSize - 4)\<close>. (\<open>updateText\<close> stores a
  patch as it is given; the clamp is applied by its callers.)
\<close>

theorem fontSize_bounds:
  "(\<forall>t\<in>set (texts (run es initial_state)). 12 \<le> fontSize t \<and> fontSize t \<le> 120)
   \<and> ((\<forall>t\<in>set (texts s). 12 \<le> fontSize t \<and> fontSize t \<le> 120) \<longrightarrow>
        (\<forall>t\<in>set (texts (step e s)). 12 \<le> fontSize t \<and> fontSize t \<le> 120))
   \<and> (controls_shown k s \<longrightarrow>
        fontSize (texts (step (IncreaseClick k) s) ! k) = min 120 (fontSize (texts s ! k) + 4)
        \<and> fontSize (texts (step (DecreaseClick k) s) ! k) = max 12 (fontSize (texts s ! k) - 4))
   \<and> (\<forall>t\<in>set (texts (step e (run es initial_state))). 12 \<le> fontSize t \<and> fontSize t \<le> 120)"
  using run_fontSize [of es] run_fontSize [of "es @ [e]"] step_fontSize [of s e]
    step_IncreaseClick [of k s] step_DecreaseClick [of k s]
  unfolding run_snoc by blast

theorem fontSize_bounds_witness:
  "controls_shown 0 largest_text
   \<and> map fontSize (texts (step (IncreaseClick 0) largest_text)) = [120]
   \<and> map fontSize (texts (step (DecreaseClick 0) largest_text)) = [116]
   \<and> map fontSize (texts (run [AddTextClick 1000, DecreaseClick 0] initial_state)) = [36]"
proof -
  have shown: "controls_shown 0 largest_text"
    by (simp add: controls_shown_def largest_text_def)
  have inv: "\<forall>t\<in>set (texts largest_text). 12 \<le> fontSize t \<and> fontSize t \<le> 120"
    by (simp add: largest_text_def)
  note b = fontSize_bounds [of "[AddTextClick 1000, DecreaseClick 0]" largest_text "IncreaseClick 0" 0]
  from b shown have
    "fontSize (texts (step (IncreaseClick 0) largest_text) ! 0) = min 120 (fontSize (texts largest_text ! 0) + 4)"
    by blast
  moreover have "length (texts (step (IncreaseClick 0) largest_text)) = 1"
    using shown by (simp add: increaseFontSize_def texts_updateText largest_text_def)
  ultimately have inc: "map fontSize (texts (step (IncreaseClick 0) largest_text)) = [120]"
    by (cases "texts (step (IncreaseClick 0) largest_text)") (simp_all add: largest_text_def)
  have dec: "map fontSize (texts (step (DecreaseClick 0) largest_text)) = [116]"
    using shown
    by (simp add: decreaseFontSize_def texts_updateText largest_text_def spread_fields
        no_updates_simps)
  have run: "map fontSize (texts (run [AddTextClick 1000, DecreaseClick 0] initial_state)) = [36]"
    by (simp add: run_def controls_shown_def addText_def setSelectedTextId_def newText_def
        initial_state_def decreaseFontSize_def texts_updateText spread_fields no_updates_simps)
  from shown inc dec run show ?thesis by simp
qed

section \<open>Selection\<close>

text \<open>
  C5 (as stated). \<open>setSelectedTextId\<close> does not look at the collection: after the layer
  with id 2 has been removed, selecting id 2 makes 2 the selection.
\<close>

theorem select_absent_counterexample:
  "map text_id (texts (removeText ''2'' two_texts)) = [''1'']
   \<and> selectedTextId (removeText ''2'' two_texts) = None
   \<and> selectedTextId (setSelectedTextId (Some ''2'') (removeText ''2'' two_texts)) = Some ''2''"
  by (simp add: removeText_def setSelectedTextId_def two_texts_def Let_def)

text \<open>
  C5 (amended). Selecting sets the selection to the given value, whether or not a
  layer has that id, and leaves the layers alone. Removing an id leaves no layer with
  that id and a selection that is not that id: none when it was the selection, the
  previous selection otherwise. Pressing the button on a rendered layer selects the id
  of that layer, and a click on the container selects none.
\<close>

theorem select_and_remove:
  "selectedTextId (setSelectedTextId v s) = v
   \<and> texts (setSelectedTextId v s) = texts s
   \<and> (\<forall>t\<in>set (texts (removeText i s)). text_id t \<noteq> i)
   \<and> selectedTextId (removeText i s) \<noteq> Some i
   \<and> (selectedTextId s = Some i \<longrightarrow> selectedTextId (removeText i s) = None)
   \<and> (selectedTextId s \<noteq> Some i \<longrightarrow> selectedTextId (removeText i s) = selectedTextId s)
   \<and> (k < length (texts s) \<longrightarrow>
        selectedTextId (step (MouseDown k p) s) = Some (text_id (texts s ! k)))
   \<and> selectedTextId (step ContainerClick s) = None"
  by (simp add: setSelectedTextId_def removeText_def Let_def handleMouseDown_def
      containerClick_def)

theorem select_and_remove_witness:
  "selectedTextId two_texts = Some ''2''
   \<and> selectedTextId (removeText ''2'' two_texts) = None
   \<and> selectedTextId two_texts \<noteq> Some ''1''
   \<and> selectedTextId (removeText ''1'' two_texts) = Some ''2''
   \<and> map text_id (texts (removeText ''1'' two_texts)) = [''2'']
   \<and> (0::nat) < length (texts two_texts)
   \<and> selectedTextId (step (MouseDown 0 (10, 20)) two_texts) = Some ''1''"
proof -
  have sel: "selectedTextId two_texts = Some ''2''"
    and other: "selectedTextId two_texts \<noteq> Some ''1''"
    and len: "(0::nat) < length (texts two_texts)"
    and hd: "text_id (texts two_texts ! 0) = ''1''"
    by (simp_all add: two_texts_def)
  have ids: "map text_id (texts (removeText ''1'' two_texts)) = [''2'']"
    by (simp add: removeText_def setSelectedTextId_def two_texts_def Let_def)
  note r2 = select_and_remove [of None two_texts "''2''" 0 "(10, 20)"]
  note r1 = select_and_remove [of None two_texts "''1''" 0 "(10, 20)"]
  from r2 sel have a: "selectedTextId (removeText ''2'' two_texts) = None" by blast
  from r1 other sel have b: "selectedTextId (removeText ''1'' two_texts) = Some ''2''" by metis
  from r1 len hd have c: "selectedTextId (step (MouseDown 0 (10, 20)) two_texts) = Some ''1''"
    by metis
  from sel other len ids a b c show ?thesis by simp
qed

section \<open>Replacing the base image\<close>

text \<open>
  C2. With two text layers and the second one selected: choosing a template, a random
  image or a successful AI edit replaces the image and keeps both layers and the
  selection; a file upload replaces the image and clears the layers, and keeps the
  selection.
\<close>

theorem image_replaced_texts_kept:
  "texts (templateClick 0 two_texts) = texts two_texts
   \<and> image_src (templateClick 0 two_texts) = ''https://picsum.photos/id/1/800/600''
   \<and> texts (randomImage 1000 two_texts) = texts two_texts
   \<and> image_src (randomImage 1000 two_texts) = ''https://picsum.photos/seed/1000/800/600''
   \<and> texts (fst (handleAiEdit (Edited ''data:image/png;base64,AAAA'') two_texts)) = texts two_texts
   \<and> image_src (fst (handleAiEdit (Edited ''data:image/png;base64,AAAA'') two_texts)) =
       ''data:image/png;base64,AAAA''
   \<and> length (texts two_texts) = 2
   \<and> selectedTextId (templateClick 0 two_texts) = Some ''2''
   \<and> selectedTextId (randomImage 1000 two_texts) = Some ''2''
   \<and> selectedTextId (fst (handleAiEdit (Edited ''data:image/png;base64,AAAA'') two_texts)) = Some ''2''
   \<and> texts (handleFileUpload (Some ''data:image/png;base64,AAAA'') two_texts) = []
   \<and> selectedTextId (handleFileUpload (Some ''data:image/png;base64,AAAA'') two_texts) = Some ''2''"
  by (simp add: templateClick_def randomImage_def handleAiEdit_def handleFileUpload_def
      two_texts_def initial_state_def TEMPLATES_def toString_1000)

section \<open>Dragging\<close>




section \<open>Export\<close>

text \<open>
  C1 (as stated). A container of \<open>768 x 432\<close> shows an image of natural size
  \<open>1920 x 1080\<close>. For a layer at \<open>x = 400\<close> the claim gives \<open>400 * 1920 / 768 = 1000\<close>;
  the export computes \<open>(400 / 768) * 1920\<close> in doubles and draws it at
  \<open>1000 + 2 ^ - 43\<close> (printed \<open>1000.0000000000001\<close>).
\<close>

theorem export_rounding_counterexample:
  "canvasRef_current wide_doc =
     Some \<lparr>rect_width = 768, rect_height = 432,
           img = Some \<lparr>naturalWidth = 1920, naturalHeight = 1080\<rparr>\<rparr>
   \<and> map text_x (texts two_texts) = [400, 100]
   \<and> map_option (map drawX \<circ> drawn) (produced (handleDownload 1000 wide_doc two_texts)) =
       Some [Fin (8796093022208001 / 8796093022208), Fin (8796093022208001 / 35184372088832)]
   \<and> (400::rat) * 1920 / 768 = 1000
   \<and> (8796093022208001 / 8796093022208 :: rat) = 1000 + 1 / 2 ^ 43
   \<and> Fin (8796093022208001 / 8796093022208) \<noteq> Fin (400 * 1920 / 768)"
  by (simp add: handleDownload_def wide_doc_def two_texts_def draw_text_def Let_def fl_wide)

text \<open>
  C1 (amended). When the export runs (container, 2D context and image element present)
  and the bounding box of the container has nonzero width and height, the canvas has
  the natural size of the image and every text layer is drawn, in order, at
  \<open>(x / width) * naturalWidth\<close>, \<open>(y / height) * naturalHeight\<close> with font size
  \<open>(fontSize / width) * naturalWidth\<close>, every division and multiplication rounded to
  the nearest double. Each of these values differs from \<open>x * naturalWidth / width\<close>
  (and so on) by at most the relative error \<open>2 ^ - 52 + 2 ^ - 106\<close>. For a container of
  \<open>400 x 300\<close> and an image of \<open>800 x 600\<close>, a layer at \<open>(100, 150)\<close> with font size 40 is
  drawn at exactly \<open>(200, 300)\<close> with font size 80.
\<close>

theorem export_scales_to_natural:
  "(canvasRef_current doc = Some c \<and> context2d doc \<and> img c = Some im
      \<and> rect_width c \<noteq> 0 \<and> rect_height c \<noteq> 0 \<longrightarrow>
    produced (handleDownload now doc s) = Some
     \<lparr>download = ''meme-'' @ toString now @ ''.png'',
      canvas_width = naturalWidth im, canvas_height = naturalHeight im,
      drawn = map (\<lambda>t.
        \<lparr>drawn_content = content t,
         drawX = Fin (fl (fl (text_x t / rect_width c) * of_nat (naturalWidth im))),
         drawY = Fin (fl (fl (text_y t / rect_height c) * of_nat (naturalHeight im))),
         drawn_fontSize = Fin (fl (fl (fontSize t / rect_width c) * of_nat (naturalWidth im))),
         lineWidth =
           Fin (fl (fl (fl (fontSize t / rect_width c) * of_nat (naturalWidth im)) * fl (1 / 10))),
         fillStyle = color t\<rparr>) (texts s)\<rparr>)
   \<and> \<bar>fl (fl (v / w) * of_nat n) - v * of_nat n / w\<bar>
       \<le> (2 / 2 ^ 53 + 1 / 2 ^ 106) * \<bar>v * of_nat n / w\<bar>
   \<and> draw_text (400, 300) (800, 600)
        \<lparr>text_id = i, content = str, text_x = 100, text_y = 150, fontSize = 40, color = col\<rparr> =
       \<lparr>drawn_content = str, drawX = Fin 200, drawY = Fin 300, drawn_fontSize = Fin 80,
        lineWidth = Fin 8, fillStyle = col\<rparr>"
proof -
  have export: "produced (handleDownload now doc s) = Some
     \<lparr>download = ''meme-'' @ toString now @ ''.png'',
      canvas_width = naturalWidth im, canvas_height = naturalHeight im,
      drawn = map (\<lambda>t.
        \<lparr>drawn_content = content t,
         drawX = Fin (fl (fl (text_x t / rect_width c) * of_nat (naturalWidth im))),
         drawY = Fin (fl (fl (text_y t / rect_height c) * of_nat (naturalHeight im))),
         drawn_fontSize = Fin (fl (fl (fontSize t / rect_width c) * of_nat (naturalWidth im))),
         lineWidth =
           Fin (fl (fl (fl (fontSize t / rect_width c) * of_nat (naturalWidth im)) * fl (1 / 10))),
         fillStyle = color t\<rparr>) (texts s)\<rparr>"
    if "canvasRef_current doc = Some c" "context2d doc" "img c = Some im"
      "rect_width c \<noteq> 0" "rect_height c \<noteq> 0"
    using that by (simp add: handleDownload_produced draw_text_nonzero)
  have bound: "\<bar>fl (fl (v / w) * of_nat n) - v * of_nat n / w\<bar>
       \<le> (2 / 2 ^ 53 + 1 / 2 ^ 106) * \<bar>v * of_nat n / w\<bar>"
    using fl_scaled_error [of "v / w" "of_nat n"] by (simp add: field_simps)
  have scenario: "draw_text (400, 300) (800, 600)
        \<lparr>text_id = i, content = str, text_x = 100, text_y = 150, fontSize = 40, color = col\<rparr> =
       \<lparr>drawn_content = str, drawX = Fin 200, drawY = Fin 300, drawn_fontSize = Fin 80,
        lineWidth = Fin 8, fillStyle = col\<rparr>"
    by (simp add: draw_text_def Let_def fl_values)
  from export bound scenario show ?thesis by blast
qed

theorem export_scales_to_natural_witness:
  "canvasRef_current shown_doc =
     Some \<lparr>rect_width = 400, rect_height = 300,
           img = Some \<lparr>naturalWidth = 800, naturalHeight = 600\<rparr>\<rparr>
   \<and> context2d shown_doc
   \<and> produced (handleDownload 1000 shown_doc two_texts) = Some
       \<lparr>download = ''meme-1000.png'', canvas_width = 800, canvas_height = 600,
        drawn =
          [\<lparr>drawn_content = ''TOP'', drawX = Fin 800, drawY = Fin 600, drawn_fontSize = Fin 80,
            lineWidth = Fin 8, fillStyle = ''#FFFFFF''\<rparr>,
           \<lparr>drawn_content = ''BOTTOM'', drawX = Fin 200, drawY = Fin 300, drawn_fontSize = Fin 80,
            lineWidth = Fin 8, fillStyle = ''#FF0000''\<rparr>]\<rparr>"
proof -
  let ?im = "\<lparr>naturalWidth = 800, naturalHeight = 600\<rparr>"
  let ?c = "\<lparr>rect_width = 400, rect_height = 300, img = Some ?im\<rparr>"
  note c = shown_doc_parts(1) and ctx = shown_doc_parts(2)
  have im: "img ?c = Some ?im" and w: "rect_width ?c \<noteq> 0" and h: "rect_height ?c \<noteq> 0"
    by simp_all
  note t = export_scales_to_natural [of shown_doc ?c ?im 1000 two_texts]
  from t c ctx im w h
  have "produced (handleDownload 1000 shown_doc two_texts) = Some
     \<lparr>download = ''meme-'' @ toString 1000 @ ''.png'',
      canvas_width = naturalWidth ?im, canvas_height = naturalHeight ?im,
      drawn = map (\<lambda>t.
        \<lparr>drawn_content = content t,
         drawX = Fin (fl (fl (text_x t / rect_width ?c) * of_nat (naturalWidth ?im))),
         drawY = Fin (fl (fl (text_y t / rect_height ?c) * of_nat (naturalHeight ?im))),
         drawn_fontSize = Fin (fl (fl (fontSize t / rect_width ?c) * of_nat (naturalWidth ?im))),
         lineWidth =
           Fin (fl (fl (fl (fontSize t / rect_width ?c) * of_nat (naturalWidth ?im)) * fl (1 / 10))),
         fillStyle = color t\<rparr>) (texts two_texts)\<rparr>"
    by blast
  with c ctx show ?thesis by (simp add: two_texts_def toString_1000 fl_values)
qed

text \<open>
  C6 (as stated). For an image element that has not loaded (natural size \<open>0 x 0\<close>)
  the export reports nothing and offers a file, drawn on a canvas of size \<open>0 x 0\<close>.
\<close>

theorem export_unloaded_counterexample:
  "canvasRef_current unloaded_doc =
     Some \<lparr>rect_width = 400, rect_height = 300,
           img = Some \<lparr>naturalWidth = 0, naturalHeight = 0\<rparr>\<rparr>
   \<and> reported (handleDownload 1000 unloaded_doc two_texts) = []
   \<and> map_option download (produced (handleDownload 1000 unloaded_doc two_texts)) =
       Some ''meme-1000.png''
   \<and> map_option canvas_width (produced (handleDownload 1000 unloaded_doc two_texts)) = Some 0
   \<and> map_option canvas_height (produced (handleDownload 1000 unloaded_doc two_texts)) = Some 0"
  by (simp add: handleDownload_def unloaded_doc_def toString_1000)

text \<open>
  C6 (amended). The export never reports an error. It produces no file when the
  container element, the 2D context or the image element is missing, and returns
  silently then. A file it produces is drawn on a canvas that has the natural size of
  the image element.
\<close>

theorem export_outcome:
  "reported (handleDownload now doc s) = []
   \<and> (canvasRef_current doc = None \<longrightarrow> produced (handleDownload now doc s) = None)
   \<and> (\<not> context2d doc \<longrightarrow> produced (handleDownload now doc s) = None)
   \<and> (\<forall>c. canvasRef_current doc = Some c \<and> img c = None \<longrightarrow>
          produced (handleDownload now doc s) = None)
   \<and> (\<forall>a. produced (handleDownload now doc s) = Some a \<longrightarrow>
          (\<exists>c im. canvasRef_current doc = Some c \<and> img c = Some im \<and> context2d doc
             \<and> canvas_width a = naturalWidth im \<and> canvas_height a = naturalHeight im))"
  by (auto simp: handleDownload_def split: option.splits)

theorem export_outcome_witness:
  "produced (handleDownload 1000 shown_doc two_texts) = Some shown_artifact
   \<and> canvas_width shown_artifact = 800 \<and> canvas_height shown_artifact = 600
   \<and> reported (handleDownload 1000 shown_doc two_texts) = []
   \<and> canvasRef_current (shown_doc\<lparr>canvasRef_current := None\<rparr>) = None
   \<and> produced (handleDownload 1000 (shown_doc\<lparr>canvasRef_current := None\<rparr>) two_texts) = None"
proof -
  note o = export_outcome [of 1000 shown_doc two_texts]
  from o have r: "reported (handleDownload 1000 shown_doc two_texts) = []" by blast
  from o shown_export obtain c im where
    "canvasRef_current shown_doc = Some c" "img c = Some im"
    "canvas_width shown_artifact = naturalWidth im" "canvas_height shown_artifact = naturalHeight im"
    by blast
  with shown_doc_parts(1)
  have size: "canvas_width shown_artifact = 800" "canvas_height shown_artifact = 600"
    by auto
  have none: "produced (handleDownload 1000 (shown_doc\<lparr>canvasRef_current := None\<rparr>) two_texts) = None"
    using export_outcome [of 1000 "shown_doc\<lparr>canvasRef_current := None\<rparr>" two_texts] by simp
  from r size none shown_export show ?thesis by simp
qed

text \<open>
  C7 (as stated). For a container whose bounding box has no width and no height the
  conversion is not skipped: the coordinates and the font size of the layers of
  \<open>two_texts\<close> are computed as \<open>Infinity\<close>.
\<close>

theorem export_collapsed_counterexample:
  "canvasRef_current collapsed_doc =
     Some \<lparr>rect_width = 0, rect_height = 0,
           img = Some \<lparr>naturalWidth = 800, naturalHeight = 600\<rparr>\<rparr>
   \<and> reported (handleDownload 1000 collapsed_doc two_texts) = []
   \<and> map_option (map drawX \<circ> drawn) (produced (handleDownload 1000 collapsed_doc two_texts)) =
       Some [PosInf, PosInf]
   \<and> map_option (map drawY \<circ> drawn) (produced (handleDownload 1000 collapsed_doc two_texts)) =
       Some [PosInf, PosInf]
   \<and> map_option (map drawn_fontSize \<circ> drawn) (produced (handleDownload 1000 collapsed_doc two_texts)) =
       Some [PosInf, PosInf]
   \<and> \<not> is_finite PosInf"
  by (simp add: handleDownload_def collapsed_doc_def two_texts_def draw_text_def Let_def
      signed_inf_def is_finite_def)

text \<open>
  C7 (amended). Whenever the export produces a file for a container whose bounding box
  has nonzero width and height, every text layer is drawn and no computed coordinate,
  font size or line width is NaN or an infinity.
\<close>

theorem export_finite_if_container_nonzero:
  assumes c: "canvasRef_current doc = Some c"
    and w: "rect_width c \<noteq> 0" and h: "rect_height c \<noteq> 0"
    and a: "produced (handleDownload now doc s) = Some a"
  shows "length (drawn a) = length (texts s)
     \<and> (\<forall>d\<in>set (drawn a). is_finite (drawX d) \<and> is_finite (drawY d)
           \<and> is_finite (drawn_fontSize d) \<and> is_finite (lineWidth d))"
proof -
  from a c obtain im where im: "img c = Some im" and ctx: "context2d doc"
    by (auto simp: handleDownload_def split: option.splits if_splits)
  from handleDownload_produced [OF c ctx im, of now s] a
  have "drawn a = map (draw_text (rect_width c, rect_height c) (naturalWidth im, naturalHeight im))
                    (texts s)"
    by auto
  with w h show ?thesis by (auto simp: draw_text_nonzero is_finite_def)
qed

theorem export_finite_if_container_nonzero_witness:
  "canvasRef_current shown_doc =
     Some \<lparr>rect_width = 400, rect_height = 300,
           img = Some \<lparr>naturalWidth = 800, naturalHeight = 600\<rparr>\<rparr>
   \<and> produced (handleDownload 1000 shown_doc two_texts) = Some shown_artifact
   \<and> length (drawn shown_artifact) = 2
   \<and> list_all (\<lambda>d. is_finite (drawX d) \<and> is_finite (drawY d)
         \<and> is_finite (drawn_fontSize d) \<and> is_finite (lineWidth d)) (drawn shown_artifact)"
proof -
  let ?im = "\<lparr>naturalWidth = 800, naturalHeight = 600\<rparr>"
  let ?c = "\<lparr>rect_width = 400, rect_height = 300, img = Some ?im\<rparr>"
  note c = shown_doc_parts(1)
  have w: "rect_width ?c \<noteq> 0" and h: "rect_height ?c \<noteq> 0" by simp_all
  have len: "length (texts two_texts) = 2" by (simp add: two_texts_def)
  from export_finite_if_container_nonzero [OF c w h shown_export] len c shown_export
  show ?thesis by (simp add: list_all_iff)
qed

end
